theory Spec2Isabelle
  imports Complex_Main
begin

section \<open>The chat session lifecycle of ChatService\<close>

text \<open>
  The service (\<^verbatim>\<open>chat.service.ts\<close>) keeps one field, \<^verbatim>\<open>currentSession\<close>, holding a
  session object of the browser's Prompt API or \<^verbatim>\<open>undefined\<close>. Everything else lives in
  the browser: the session objects with their \<^verbatim>\<open>inputUsage\<close> and \<^verbatim>\<open>inputQuota\<close>, and the
  outcome of \<^verbatim>\<open>LanguageModel.create\<close>, \<^verbatim>\<open>clone\<close> and \<^verbatim>\<open>prompt\<close>. The model keeps
  the two sides apart: a \<open>world\<close> is the service's field together with the session objects
  and the list of calls made to the browser so far; a \<open>host\<close> says how the browser answers.
  Every method is a function from a world to a result and the next world, and a promise
  that rejects (or a \<^verbatim>\<open>throw\<close>) is the result \<open>Inl\<close>.
\<close>

subsection \<open>JavaScript values\<close>

text \<open>
  A thrown value. The Prompt API rejects with exception objects and the service itself
  throws \<^verbatim>\<open>new Error(...)\<close>, so a thrown value has a constructor name and a message (the
  two things the \<^verbatim>\<open>catch\<close> block of \<^verbatim>\<open>getChromeAiResponse\<close> reads for its log lines).
\<close>

datatype js_error = JsError (error_name: string) (error_message: string)

text \<open>
  The numbers of line 84, \<^verbatim>\<open>(inputUsage / inputQuota) * 100\<close>. A JavaScript number is an
  IEEE 754 double: a finite value (kept here as the rational it stands for), an infinity
  or \<^verbatim>\<open>NaN\<close>. Every operation computes the exact result and rounds it to the nearest
  double, ties to the even significand. \<open>round_binary64\<close> is that rounding for a
  positive rational: the value lies in a binade \<open>2^e \<le> x < 2^(e+1)\<close>, the doubles
  there are the multiples of \<open>2^(e - 52)\<close> (of \<open>2^(-1074)\<close> below \<open>2^(-1022)\<close>, the
  subnormal range), and a result of \<open>2^1024\<close> or more is an infinity. The sign of a zero
  is not kept; no comparison depends on it.
\<close>

datatype jsnum = Finite rat | PosInfinity | NegInfinity | NaN

fun floor_log2 :: "nat \<Rightarrow> nat" where
  "floor_log2 n = (if n < 2 then 0 else Suc (floor_log2 (n div 2)))"

declare floor_log2.simps [simp del]

definition binary_exponent :: "rat \<Rightarrow> int" where
  "binary_exponent x =
     (let k = int (floor_log2 (nat (fst (quotient_of x))))
            - int (floor_log2 (nat (snd (quotient_of x))))
      in if 2 powi k \<le> x then k else k - 1)"

definition quantum :: "rat \<Rightarrow> rat" where
  "quantum x = 2 powi (max (binary_exponent x) (- 1022) - 52)"

definition round_half_even :: "rat \<Rightarrow> int" where
  "round_half_even z =
     (let f = \<lfloor>z\<rfloor>; d = z - of_int f
      in if d < 1 / 2 then f else if 1 / 2 < d then f + 1 else if even f then f else f + 1)"

definition round_binary64 :: "rat \<Rightarrow> rat" where
  "round_binary64 x = of_int (round_half_even (x / quantum x)) * quantum x"

definition to_double :: "rat \<Rightarrow> jsnum" where
  "to_double x =
     (if x = 0 then Finite 0
      else if 0 < x
      then (if 2 ^ 1024 \<le> round_binary64 x then PosInfinity else Finite (round_binary64 x))
      else (if 2 ^ 1024 \<le> round_binary64 (- x) then NegInfinity
            else Finite (- round_binary64 (- x))))"

text \<open>
  \<^verbatim>\<open>a / b\<close> on two token counts. A token count is a natural number that a double holds
  exactly (every integer up to \<open>2^53\<close> is one), so the operands are not rounded, only the
  quotient is. The quotient is \<^verbatim>\<open>NaN\<close> for \<open>0 / 0\<close> and \<^verbatim>\<open>Infinity\<close> for \<open>n / 0\<close>
  with \<open>n > 0\<close>, where HOL's division would return \<open>0\<close>.
\<close>

definition js_divide :: "nat \<Rightarrow> nat \<Rightarrow> jsnum" where
  "js_divide a b =
     (if b = 0 then (if a = 0 then NaN else PosInfinity)
      else to_double (of_nat a / of_nat b))"

text \<open>\<^verbatim>\<open>x * y\<close>\<close>

fun js_times :: "jsnum \<Rightarrow> jsnum \<Rightarrow> jsnum" where
  "js_times NaN y = NaN"
| "js_times x NaN = NaN"
| "js_times (Finite a) (Finite b) = to_double (a * b)"
| "js_times (Finite a) PosInfinity =
     (if a = 0 then NaN else if 0 < a then PosInfinity else NegInfinity)"
| "js_times (Finite a) NegInfinity =
     (if a = 0 then NaN else if 0 < a then NegInfinity else PosInfinity)"
| "js_times PosInfinity (Finite b) =
     (if b = 0 then NaN else if 0 < b then PosInfinity else NegInfinity)"
| "js_times NegInfinity (Finite b) =
     (if b = 0 then NaN else if 0 < b then NegInfinity else PosInfinity)"
| "js_times PosInfinity PosInfinity = PosInfinity"
| "js_times PosInfinity NegInfinity = NegInfinity"
| "js_times NegInfinity PosInfinity = NegInfinity"
| "js_times NegInfinity NegInfinity = PosInfinity"

text \<open>\<^verbatim>\<open>x >= y\<close> and \<^verbatim>\<open>x < y\<close>: both are false as soon as one side is \<^verbatim>\<open>NaN\<close>.\<close>

fun js_ge :: "jsnum \<Rightarrow> jsnum \<Rightarrow> bool" where
  "js_ge NaN y = False"
| "js_ge x NaN = False"
| "js_ge (Finite a) (Finite b) = (b \<le> a)"
| "js_ge PosInfinity y = True"
| "js_ge x NegInfinity = True"
| "js_ge (Finite a) PosInfinity = False"
| "js_ge NegInfinity (Finite b) = False"


subsection \<open>The browser side: sessions, calls, answers\<close>

text \<open>
  \<^verbatim>\<open>LanguageModelCreateOptions\<close> and \<^verbatim>\<open>PromptMessage\<close> of the type declarations. A string
  is a list of code units; every code unit of the system prompt is below 256, so one
  \<open>char\<close> holds it.
\<close>

datatype prompt_role = System | User | Assistant

record prompt_message =
  role :: prompt_role
  content :: string

record create_options =
  temperature :: rat
  topK :: nat
  initialPrompts :: "prompt_message list"

text \<open>
  A session object. The service holds a reference to it; a reference is the index of the
  object in the list of all session objects ever made, so a new object always gets a
  reference no older object has.
\<close>

type_synonym ref = nat

record session =
  inputUsage :: nat
  inputQuota :: nat
  destroyed :: bool

datatype availability = Available | Downloadable | Downloading | Unavailable

datatype call =
    Availability
  | Create create_options
  | Clone ref
  | Destroy ref
  | Prompt ref string

record world =
  currentSession :: "ref option"
  heap :: "session list"
  calls :: "call list"

text \<open>
  How the browser answers. \<open>windowExists\<close> is \<^verbatim>\<open>typeof window !== 'undefined'\<close> and
  \<open>hasLanguageModel\<close> is \<^verbatim>\<open>typeof LanguageModel !== 'undefined'\<close>.
  An answer may depend on everything that happened before (the world at the call).
  \<^verbatim>\<open>create\<close> and \<^verbatim>\<open>clone\<close> resolve with a new session, of which the model keeps the usage
  and the quota, or reject; \<^verbatim>\<open>prompt\<close> resolves with the response text and the session's
  usage afterwards, or rejects.
\<close>

record host =
  windowExists :: bool
  hasLanguageModel :: bool
  availability_reply :: "world \<Rightarrow> js_error + availability"
  create_reply :: "world \<Rightarrow> js_error + nat \<times> nat"
  clone_reply :: "world \<Rightarrow> ref \<Rightarrow> js_error + nat \<times> nat"
  prompt_reply :: "world \<Rightarrow> ref \<Rightarrow> string \<Rightarrow> js_error + string \<times> nat"

type_synonym 'a action = "world \<Rightarrow> (js_error + 'a) \<times> world"

definition return_ok :: "'a \<Rightarrow> 'a action" where
  "return_ok x w = (Inr x, w)"

definition throw :: "js_error \<Rightarrow> 'a action" where
  "throw e w = (Inl e, w)"

text \<open>\<^verbatim>\<open>const x = await m; k(x)\<close>: a rejection of \<open>m\<close> leaves the function at once.\<close>

definition await_then :: "'a action \<Rightarrow> ('a \<Rightarrow> 'b action) \<Rightarrow> 'b action" where
  "await_then m k w =
     (case m w of (Inl e, w') \<Rightarrow> (Inl e, w') | (Inr x, w') \<Rightarrow> k x w')"

text \<open>\<^verbatim>\<open>try { m } catch (error) { handler(error) }\<close>\<close>

definition try_catch :: "'a action \<Rightarrow> (js_error \<Rightarrow> 'a action) \<Rightarrow> 'a action" where
  "try_catch m handler w =
     (case m w of (Inl e, w') \<Rightarrow> handler e w' | (Inr x, w') \<Rightarrow> (Inr x, w'))"

definition referenceError :: js_error where
  "referenceError = JsError ''ReferenceError'' ''LanguageModel is not defined''"

definition typeError :: js_error where
  "typeError = JsError ''TypeError'' ''Cannot read properties of undefined''"

definition new_session :: "nat \<times> nat \<Rightarrow> session" where
  "new_session uq = \<lparr>inputUsage = fst uq, inputQuota = snd uq, destroyed = False\<rparr>"

text \<open>
  \<^verbatim>\<open>LanguageModel.create(options)\<close>. Where the global is not defined, evaluating
  \<^verbatim>\<open>LanguageModel\<close> throws a ReferenceError and no call is made.
\<close>

definition LanguageModel_create :: "host \<Rightarrow> create_options \<Rightarrow> ref action" where
  "LanguageModel_create h options w =
     (if \<not> hasLanguageModel h then (Inl referenceError, w)
      else case create_reply h w of
        Inl e \<Rightarrow> (Inl e, w\<lparr>calls := calls w @ [Create options]\<rparr>)
      | Inr uq \<Rightarrow>
          (Inr (length (heap w)),
           w\<lparr>heap := heap w @ [new_session uq], calls := calls w @ [Create options]\<rparr>))"

text \<open>\<^verbatim>\<open>LanguageModel.availability()\<close>\<close>

definition LanguageModel_availability :: "host \<Rightarrow> availability action" where
  "LanguageModel_availability h w =
     (if \<not> hasLanguageModel h then (Inl referenceError, w)
      else (availability_reply h w, w\<lparr>calls := calls w @ [Availability]\<rparr>))"

text \<open>\<^verbatim>\<open>session.clone()\<close>\<close>

definition session_clone :: "host \<Rightarrow> ref \<Rightarrow> ref action" where
  "session_clone h r w =
     (case clone_reply h w r of
        Inl e \<Rightarrow> (Inl e, w\<lparr>calls := calls w @ [Clone r]\<rparr>)
      | Inr uq \<Rightarrow>
          (Inr (length (heap w)),
           w\<lparr>heap := heap w @ [new_session uq], calls := calls w @ [Clone r]\<rparr>))"

text \<open>\<^verbatim>\<open>session.destroy()\<close>: synchronous, returns nothing.\<close>

definition session_destroy :: "ref \<Rightarrow> world \<Rightarrow> world" where
  "session_destroy r w =
     w\<lparr>heap := (if r < length (heap w) then (heap w)[r := (heap w ! r)\<lparr>destroyed := True\<rparr>]
                else heap w),
       calls := calls w @ [Destroy r]\<rparr>"

text \<open>\<^verbatim>\<open>session.prompt(message)\<close>\<close>

definition session_prompt :: "host \<Rightarrow> ref \<Rightarrow> string \<Rightarrow> string action" where
  "session_prompt h r message w =
     (case prompt_reply h w r message of
        Inl e \<Rightarrow> (Inl e, w\<lparr>calls := calls w @ [Prompt r message]\<rparr>)
      | Inr (response, usage) \<Rightarrow>
          (Inr response,
           w\<lparr>heap := (if r < length (heap w)
                       then (heap w)[r := (heap w ! r)\<lparr>inputUsage := usage\<rparr>]
                       else heap w),
             calls := calls w @ [Prompt r message]\<rparr>))"

subsection \<open>ChatService\<close>

text \<open>The system prompt of lines 72 to 76, a template literal of five lines.\<close>

definition systemPrompt :: string where
  "systemPrompt =
     ''Eres un asistente legal especializado en servicios notariales de M''
       @ [CHR 0xE9] @ ''xico.'' @ [CHR 0x0A]
     @ ''Tu objetivo es proporcionar informaci'' @ [CHR 0xF3]
       @ ''n clara y precisa sobre tr'' @ [CHR 0xE1] @ ''mites notariales,'' @ [CHR 0x0A]
     @ ''contratos, escrituras, testamentos, poderes notariales y actas constitutivas.''
       @ [CHR 0x0A]
     @ ''Responde siempre en espa'' @ [CHR 0xF1]
       @ ''ol de manera profesional pero accesible.'' @ [CHR 0x0A]
     @ ''Si no est'' @ [CHR 0xE1]
       @ ''s seguro de algo, recomienda consultar con un notario profesional.''"

text \<open>The argument of \<^verbatim>\<open>LanguageModel.create\<close>, lines 67 to 78.\<close>

definition sessionOptions :: create_options where
  "sessionOptions =
     \<lparr>temperature = 8 / 10,
      topK = 3,
      initialPrompts = [\<lparr>role = System, content = systemPrompt\<rparr>]\<rparr>"

text \<open>Line 84: \<^verbatim>\<open>(this.currentSession.inputUsage / this.currentSession.inputQuota) * 100\<close>\<close>

definition usagePercent :: "session \<Rightarrow> jsnum" where
  "usagePercent s = js_times (js_divide (inputUsage s) (inputQuota s)) (Finite 100)"

text \<open>
  Reading the fields of \<^verbatim>\<open>this.currentSession\<close>. A JavaScript reference always points to
  its object; the two failing branches are there because a HOL list has no such
  guarantee, and \<open>wf\<close> below says when they are not taken.
\<close>

definition current_object :: "(ref \<times> session) action" where
  "current_object w =
     (case currentSession w of
        None \<Rightarrow> (Inl typeError, w)
      | Some r \<Rightarrow>
          if r < length (heap w) then (Inr (r, heap w ! r), w) else (Inl typeError, w))"

text \<open>
  \<^verbatim>\<open>ensureSession\<close>, lines 62 to 99: create the session when there is none (64 to 81),
  then measure the usage (84) and, at 90 percent or more, replace the session by its
  clone and destroy the old one (88 to 96). The \<^verbatim>\<open>console\<close> lines have no effect on the
  service and are left out here and below.
\<close>

definition ensureSession :: "host \<Rightarrow> ref action" where
  "ensureSession h =
     await_then
       (\<lambda>w. if currentSession w = None
            then await_then (LanguageModel_create h sessionOptions)
                   (\<lambda>r w1. (Inr (), w1\<lparr>currentSession := Some r\<rparr>)) w
            else (Inr (), w))
       (\<lambda>_. await_then current_object
          (\<lambda>(oldSession, s).
             if js_ge (usagePercent s) (Finite 90)
             then await_then (session_clone h oldSession)
                    (\<lambda>c w2. (Inr c, session_destroy oldSession (w2\<lparr>currentSession := Some c\<rparr>)))
             else return_ok oldSession))"

text \<open>\<^verbatim>\<open>destroySession\<close>, lines 144 to 150.\<close>

definition destroySession :: "world \<Rightarrow> world" where
  "destroySession w =
     (case currentSession w of
        None \<Rightarrow> w
      | Some r \<Rightarrow> (session_destroy r w)\<lparr>currentSession := None\<rparr>)"

definition notAvailableError :: js_error where
  "notAvailableError =
     JsError ''Error''
       ''Chrome AI Prompt API not available. Please use Chrome Canary with flags enabled.''"

text \<open>
  \<^verbatim>\<open>getChromeAiResponse\<close>, lines 107 to 138: the \<^verbatim>\<open>try\<close> block checks the global, takes
  the session from \<open>ensureSession\<close> and returns what \<^verbatim>\<open>session.prompt(userMessage)\<close>
  resolves with; the \<^verbatim>\<open>catch\<close> block destroys the session and throws the error again.
\<close>

definition getChromeAiResponse :: "host \<Rightarrow> string \<Rightarrow> string action" where
  "getChromeAiResponse h userMessage =
     try_catch
       (await_then (if \<not> hasLanguageModel h then throw notAvailableError else return_ok ())
          (\<lambda>_. await_then (ensureSession h)
             (\<lambda>session. await_then (session_prompt h session userMessage)
                (\<lambda>response. return_ok response))))
       (\<lambda>error w. throw error (destroySession w))"

text \<open>
  \<^verbatim>\<open>warmupSession\<close>, lines 156 to 165: the \<^verbatim>\<open>catch\<close> block only logs.
\<close>

definition warmupSession :: "host \<Rightarrow> unit action" where
  "warmupSession h =
     try_catch (await_then (ensureSession h) (\<lambda>_. return_ok ())) (\<lambda>error. return_ok ())"

text \<open>\<^verbatim>\<open>isChromeAiAvailable\<close>, lines 171 to 181.\<close>

definition isChromeAiAvailable :: "host \<Rightarrow> bool" where
  "isChromeAiAvailable h = (windowExists h \<and> hasLanguageModel h)"

text \<open>
  \<^verbatim>\<open>checkChromeAiAvailability\<close>, lines 187 to 236. It catches every error itself, so it
  always resolves.
\<close>

record availability_result =
  available :: bool
  status :: string
  canDownload :: bool

definition availability_name :: "availability \<Rightarrow> string" where
  "availability_name a =
     (case a of Available \<Rightarrow> ''available'' | Downloadable \<Rightarrow> ''downloadable''
      | Downloading \<Rightarrow> ''downloading'' | Unavailable \<Rightarrow> ''unavailable'')"

definition checkChromeAiAvailability :: "host \<Rightarrow> availability_result action" where
  "checkChromeAiAvailability h =
     try_catch
       (if \<not> hasLanguageModel h
        then return_ok
          \<lparr>available = False,
           status = ''LanguageModel no encontrado. Usa Chrome Canary con flags habilitadas.'',
           canDownload = False\<rparr>
        else await_then (LanguageModel_availability h)
          (\<lambda>availabilityStatus.
             if availabilityStatus = Available
             then return_ok
               \<lparr>available = True,
                status = ''Chrome AI est'' @ [CHR 0xE1] @ '' listo para usar'',
                canDownload = False\<rparr>
             else if availabilityStatus = Downloadable \<or> availabilityStatus = Downloading
             then return_ok
               \<lparr>available = False,
                status = ''El modelo necesita descargarse. ''
                  @ ''Intenta crear una sesi'' @ [CHR 0xF3] @ ''n para iniciar la descarga.'',
                canDownload = True\<rparr>
             else return_ok
               \<lparr>available = False,
                status = ''Chrome AI no est'' @ [CHR 0xE1] @ '' disponible (status: ''
                  @ availability_name availabilityStatus @ '')'',
                canDownload = False\<rparr>))
       (\<lambda>error. return_ok
          \<lparr>available = False,
           status = ''Error verificando disponibilidad: '' @ error_message error,
           canDownload = False\<rparr>)"

subsection \<open>ChatComponent\<close>

text \<open>
  The signals of \<^verbatim>\<open>chat.component.ts\<close> that decide whether a message can be sent
  (lines 72 to 85). The other signals, the toasts, the class on the document body and the
  loading of the history do not reach the chat service and are left out.
\<close>

record component =
  chromeAiAvailable :: bool
  isSending :: bool
  userInput :: string

text \<open>
  \<^verbatim>\<open>String.prototype.trim\<close> on code units below 256: the white space and line terminators
  there are 9 to 13, 32 and 160.
\<close>

definition js_whitespace :: "char \<Rightarrow> bool" where
  "js_whitespace c = (of_char c \<in> {9 :: nat, 10, 11, 12, 13, 32, 160})"

definition js_trim :: "string \<Rightarrow> string" where
  "js_trim s = rev (dropWhile js_whitespace (rev (dropWhile js_whitespace s)))"

definition canSendMessage :: "component \<Rightarrow> bool" where
  "canSendMessage c =
     (0 < length (js_trim (userInput c)) \<and> \<not> isSending c \<and> chromeAiAvailable c)"

text \<open>
  \<^verbatim>\<open>ngOnInit\<close>, lines 94 to 153, is an \<^verbatim>\<open>async\<close> function: it runs up to its first
  \<^verbatim>\<open>await\<close> (line 105) and hands control back, so the component is visible to the user's
  events in the state it has there. \<open>ngOnInit_until_await\<close> is that first stretch, lines
  96 to 100; \<open>ngOnInit_resume\<close> is the rest, lines 103 to 144; \<open>ngOnInit\<close> is the
  whole run.
\<close>

definition ngOnInit_until_await :: "host \<Rightarrow> component \<Rightarrow> component" where
  "ngOnInit_until_await h c = c\<lparr>chromeAiAvailable := isChromeAiAvailable h\<rparr>"

definition ngOnInit_resume :: "host \<Rightarrow> component \<times> world \<Rightarrow> component \<times> world" where
  "ngOnInit_resume h cw =
     (let c = fst cw; w = snd cw in
      if isChromeAiAvailable h
      then (case checkChromeAiAvailability h w of
              (Inl error, w1) \<Rightarrow> (c\<lparr>chromeAiAvailable := False\<rparr>, w1)
            | (Inr availabilityResult, w1) \<Rightarrow>
                if available availabilityResult
                then (case warmupSession h w1 of
                        (Inl error, w2) \<Rightarrow> (c\<lparr>chromeAiAvailable := False\<rparr>, w2)
                      | (Inr _, w2) \<Rightarrow> (c\<lparr>chromeAiAvailable := True\<rparr>, w2))
                else if canDownload availabilityResult
                then (c\<lparr>chromeAiAvailable := False\<rparr>, w1)
                else (c\<lparr>chromeAiAvailable := False\<rparr>, w1))
      else (c, w))"

definition ngOnInit :: "host \<Rightarrow> component \<times> world \<Rightarrow> component \<times> world" where
  "ngOnInit h cw = ngOnInit_resume h (ngOnInit_until_await h (fst cw), snd cw)"

subsection \<open>Vocabulary of the properties\<close>

text \<open>
  The quotient the specification speaks of, consumed input quota over total quota, as the
  number it is (not rounded; undefined and infinite as in JavaScript when the quota is
  zero); the calls made to the browser between two worlds; whether a session object has been
  destroyed; and the worlds in which the service's reference points to an object.
\<close>

definition quota_ratio :: "session \<Rightarrow> jsnum" where
  "quota_ratio s =
     (if inputQuota s = 0 then (if inputUsage s = 0 then NaN else PosInfinity)
      else Finite (of_nat (inputUsage s) / of_nat (inputQuota s)))"

definition new_calls :: "world \<Rightarrow> world \<Rightarrow> call list" where
  "new_calls w w' = drop (length (calls w)) (calls w')"

fun is_create :: "call \<Rightarrow> bool" where
  "is_create (Create options) = True"
| "is_create c = False"

fun is_destroy :: "call \<Rightarrow> bool" where
  "is_destroy (Destroy r) = True"
| "is_destroy c = False"

definition is_destroyed :: "world \<Rightarrow> ref \<Rightarrow> bool" where
  "is_destroyed w r = (r < length (heap w) \<and> destroyed (heap w ! r))"

definition wf :: "world \<Rightarrow> bool" where
  "wf w = (case currentSession w of None \<Rightarrow> True | Some r \<Rightarrow> r < length (heap w))"

text \<open>
  Worlds and hosts to run the service on: the service as constructed, the service holding
  one session, and a browser that gives the same three answers every time.
\<close>

definition initial_world :: world where
  "initial_world = \<lparr>currentSession = None, heap = [], calls = []\<rparr>"

definition world_with_session :: "nat \<Rightarrow> nat \<Rightarrow> world" where
  "world_with_session usage quota =
     \<lparr>currentSession = Some 0,
      heap = [\<lparr>inputUsage = usage, inputQuota = quota, destroyed = False\<rparr>],
      calls = [Create sessionOptions]\<rparr>"

definition fixed_host ::
  "(js_error + nat \<times> nat) \<Rightarrow> (js_error + nat \<times> nat) \<Rightarrow> (js_error + string \<times> nat) \<Rightarrow> host" where
  "fixed_host c cl p =
     \<lparr>windowExists = True, hasLanguageModel = True,
      availability_reply = (\<lambda>w. Inr Available),
      create_reply = (\<lambda>w. c), clone_reply = (\<lambda>w r. cl), prompt_reply = (\<lambda>w r m. p)\<rparr>"

text \<open>The component as constructed: the initial values of its signals.\<close>

definition new_component :: component where
  "new_component = \<lparr>chromeAiAvailable = False, isSending = False, userInput = ''''\<rparr>"

definition quotaExceeded :: js_error where
  "quotaExceeded = JsError ''QuotaExceededError'' ''The input is too large.''"

section \<open>Properties\<close>

subsection \<open>Rounding to a double\<close>

lemma floor_log2_bounds: "0 < n \<Longrightarrow> 2 ^ floor_log2 n \<le> n \<and> n < 2 ^ Suc (floor_log2 n)"
proof (induction n rule: floor_log2.induct)
  case (1 n)
  show ?case
  proof (cases "n < 2")
    case True
    with "1.prems" show ?thesis by (simp add: floor_log2.simps)
  next
    case False
    then have "0 < n div 2" by simp
    with "1.IH" False have ih: "2 ^ floor_log2 (n div 2) \<le> n div 2"
      "n div 2 < 2 ^ Suc (floor_log2 (n div 2))" by simp_all
    have eq: "floor_log2 n = Suc (floor_log2 (n div 2))"
      using False by (simp add: floor_log2.simps)
    from ih show ?thesis unfolding eq by auto
  qed
qed

lemma binary_exponent_bounds:
  assumes "0 < x"
  shows "2 powi binary_exponent x \<le> x \<and> x < 2 powi (binary_exponent x + 1)"
proof -
  obtain a b where ab: "quotient_of x = (a, b)" by (cases "quotient_of x")
  then have b: "0 < b" by (rule quotient_of_denom_pos)
  from ab have x: "x = of_int a / of_int b" by (rule quotient_of_div)
  with assms b have a: "0 < a" by (simp add: zero_less_divide_iff)
  define la lb where "la = floor_log2 (nat a)" and "lb = floor_log2 (nat b)"
  from a b floor_log2_bounds [of "nat a"] floor_log2_bounds [of "nat b"]
  have A: "2 ^ la \<le> nat a" "nat a < 2 ^ Suc la" and B: "2 ^ lb \<le> nat b" "nat b < 2 ^ Suc lb"
    by (simp_all add: la_def lb_def)
  have ra: "(2::rat) ^ la \<le> of_int a" "of_int a < (2::rat) ^ Suc la"
  proof -
    from A(1) have "of_nat (2 ^ la) \<le> (of_nat (nat a) :: rat)" by (simp only: of_nat_le_iff)
    with a show "(2::rat) ^ la \<le> of_int a" by simp
    from A(2) have "(of_nat (nat a) :: rat) < of_nat (2 ^ Suc la)" by (simp only: of_nat_less_iff)
    with a show "of_int a < (2::rat) ^ Suc la" by simp
  qed
  have rb: "(2::rat) ^ lb \<le> of_int b" "of_int b < (2::rat) ^ Suc lb"
  proof -
    from B(1) have "of_nat (2 ^ lb) \<le> (of_nat (nat b) :: rat)" by (simp only: of_nat_le_iff)
    with b show "(2::rat) ^ lb \<le> of_int b" by simp
    from B(2) have "(of_nat (nat b) :: rat) < of_nat (2 ^ Suc lb)" by (simp only: of_nat_less_iff)
    with b show "of_int b < (2::rat) ^ Suc lb" by simp
  qed
  define k where "k = int la - int lb"
  have bpos: "0 < (of_int b :: rat)" using b by simp
  have upper: "x < 2 powi (k + 1)"
  proof -
    have "x * 2 ^ lb \<le> x * of_int b" using rb(1) assms by simp
    also have "\<dots> = of_int a" using bpos by (simp add: x)
    also have "\<dots> < 2 ^ Suc la" by (rule ra(2))
    finally have "x < 2 ^ Suc la / 2 ^ lb" by (simp add: pos_less_divide_eq)
    also have "\<dots> = 2 powi (k + 1)"
      by (simp add: k_def power_int_diff power_int_add)
    finally show ?thesis .
  qed
  have lower: "2 powi (k - 1) < x"
  proof -
    have "(2::rat) ^ la \<le> of_int a" by (rule ra(1))
    also have "\<dots> = x * of_int b" using bpos by (simp add: x)
    also have "\<dots> < x * 2 ^ Suc lb" using rb(2) assms by simp
    finally have "(2::rat) ^ la / 2 ^ Suc lb < x" by (simp add: pos_divide_less_eq)
    moreover have "(2::rat) ^ la / 2 ^ Suc lb = 2 powi (k - 1)"
      by (simp add: k_def power_int_diff)
    ultimately show ?thesis by simp
  qed
  have be: "binary_exponent x = (if 2 powi k \<le> x then k else k - 1)"
    by (simp add: binary_exponent_def ab la_def lb_def k_def Let_def)
  show ?thesis
  proof (cases "2 powi k \<le> x")
    case True
    with be upper show ?thesis by simp
  next
    case False
    with be lower show ?thesis by simp
  qed
qed

lemma two_powi_less_cancel: "(2::rat) powi a < 2 powi b \<Longrightarrow> a < b"
  by (rule ccontr) (simp add: not_less power_int_increasing leD)

lemma binary_exponent_unique:
  assumes "2 powi e \<le> x" "x < 2 powi (e + 1)"
  shows "binary_exponent x = e"
proof -
  have "(0::rat) < 2 powi e" by simp
  with assms have pos: "0 < x" by linarith
  from binary_exponent_bounds [OF pos]
  have b: "2 powi binary_exponent x \<le> x" "x < 2 powi (binary_exponent x + 1)" by simp_all
  from b(1) assms(2) have "(2::rat) powi binary_exponent x < 2 powi (e + 1)" by linarith
  then have "binary_exponent x < e + 1" by (rule two_powi_less_cancel)
  moreover from assms(1) b(2) have "(2::rat) powi e < 2 powi (binary_exponent x + 1)" by linarith
  then have "e < binary_exponent x + 1" by (rule two_powi_less_cancel)
  ultimately show ?thesis by simp
qed

lemma binary_exponent_mono:
  assumes "0 < x" "x \<le> y"
  shows "binary_exponent x \<le> binary_exponent y"
proof -
  from assms have "0 < y" by simp
  from binary_exponent_bounds [OF assms(1)] binary_exponent_bounds [OF this] assms(2)
  have "(2::rat) powi binary_exponent x < 2 powi (binary_exponent y + 1)" by linarith
  then have "binary_exponent x < binary_exponent y + 1" by (rule two_powi_less_cancel)
  then show ?thesis by simp
qed

lemma round_half_even_near:
  "of_int n - 1 / 2 < z \<Longrightarrow> z < of_int n + 1 / 2 \<Longrightarrow> round_half_even z = n"
proof -
  assume lo: "of_int n - 1 / 2 < z" and hi: "z < of_int n + 1 / 2"
  show ?thesis
  proof (cases "of_int n \<le> z")
    case True
    with hi have "\<lfloor>z\<rfloor> = n" by (intro floor_unique) auto
    with hi show ?thesis by (simp add: round_half_even_def Let_def)
  next
    case False
    with lo have "\<lfloor>z\<rfloor> = n - 1" by (intro floor_unique) auto
    with lo show ?thesis by (auto simp add: round_half_even_def Let_def)
  qed
qed

lemma round_half_even_tie:
  "z = of_int n + 1 / 2 \<Longrightarrow> round_half_even z = (if even n then n else n + 1)"
proof -
  assume z: "z = of_int n + 1 / 2"
  then have "\<lfloor>z\<rfloor> = n" by (intro floor_unique) auto
  with z show ?thesis by (simp add: round_half_even_def Let_def)
qed

lemma round_half_even_of_int [simp]: "round_half_even (of_int n) = n"
  by (rule round_half_even_near) simp_all

lemma round_half_even_range:
  "\<lfloor>z\<rfloor> \<le> round_half_even z \<and> round_half_even z \<le> \<lfloor>z\<rfloor> + 1"
  by (simp add: round_half_even_def Let_def)

lemma round_half_even_mono:
  assumes "z \<le> z'"
  shows "round_half_even z \<le> round_half_even z'"
proof (cases "\<lfloor>z\<rfloor> = \<lfloor>z'\<rfloor>")
  case True
  with assms have "z - of_int \<lfloor>z\<rfloor> \<le> z' - of_int \<lfloor>z'\<rfloor>" by simp
  with True show ?thesis by (auto simp add: round_half_even_def Let_def)
next
  case False
  from assms have "\<lfloor>z\<rfloor> \<le> \<lfloor>z'\<rfloor>" by (rule floor_mono)
  with False have "\<lfloor>z\<rfloor> + 1 \<le> \<lfloor>z'\<rfloor>" by simp
  with round_half_even_range [of z] round_half_even_range [of z'] show ?thesis by linarith
qed

lemma round_half_even_ge: "of_int n - 1 / 2 < z \<Longrightarrow> n \<le> round_half_even z"
proof -
  assume lo: "of_int n - 1 / 2 < z"
  show ?thesis
  proof (cases "of_int n \<le> z")
    case True
    then have "round_half_even (of_int n) \<le> round_half_even z" by (rule round_half_even_mono)
    then show ?thesis by simp
  next
    case False
    with lo have "round_half_even z = n" by (intro round_half_even_near) auto
    then show ?thesis by simp
  qed
qed

lemma two_powi_scale: "of_int (2 ^ n) * (2::rat) powi k = 2 powi (int n + k)"
proof -
  have "(2::rat) powi (int n + k) = 2 powi (int n) * 2 powi k"
    by (rule power_int_add) simp
  then show ?thesis by simp
qed

lemma two_powi_ratio: "(2::rat) powi (int n + k) / 2 powi k = of_int (2 ^ n)"
  by (simp add: two_powi_scale [symmetric])

lemma quantum_pos: "0 < quantum x"
  by (simp add: quantum_def)

text \<open>Rounding keeps the order: the fact every bound on line 84 below rests on.\<close>

lemma round_binary64_mono:
  assumes "0 < x" "x \<le> y"
  shows "round_binary64 x \<le> round_binary64 y"
proof -
  from assms have ypos: "0 < y" by simp
  define E where "E = max (binary_exponent x) (- 1022)"
  define F where "F = max (binary_exponent y) (- 1022)"
  have EF: "E \<le> F" using binary_exponent_mono [OF assms] by (simp add: E_def F_def)
  have qx: "quantum x = 2 powi (E - 52)" and qy: "quantum y = 2 powi (F - 52)"
    by (simp_all add: quantum_def E_def F_def)
  show ?thesis
  proof (cases "E = F")
    case True
    then have q: "quantum x = quantum y" by (simp add: qx qy)
    have "x / quantum y \<le> y / quantum y"
      using assms(2) quantum_pos [of y] by (simp add: divide_right_mono)
    then have "round_half_even (x / quantum y) \<le> round_half_even (y / quantum y)"
      by (rule round_half_even_mono)
    then have "(of_int (round_half_even (x / quantum y)) :: rat)
        \<le> of_int (round_half_even (y / quantum y))" by simp
    then show ?thesis
      using quantum_pos [of y] by (simp add: round_binary64_def q mult_right_mono)
  next
    case False
    with EF have lt: "E < F" by simp
    then have Fy: "F = binary_exponent y" by (auto simp add: E_def F_def)
    from binary_exponent_bounds [OF assms(1)] have "x < 2 powi (binary_exponent x + 1)" by simp
    also have "\<dots> \<le> 2 powi (E + 1)" by (rule power_int_increasing) (simp_all add: E_def)
    finally have xlt: "x < 2 powi (E + 1)" .
    have "x / quantum x \<le> 2 powi (E + 1) / 2 powi (E - 52)"
      using xlt by (simp add: qx divide_right_mono)
    also have "\<dots> = of_int (2 ^ 53)"
      using two_powi_ratio [of 53 "E - 52"] by (simp add: add.commute)
    finally have "round_half_even (x / quantum x) \<le> round_half_even (of_int (2 ^ 53))"
      by (rule round_half_even_mono)
    then have "(of_int (round_half_even (x / quantum x)) :: rat) \<le> of_int (2 ^ 53)"
      by (simp only: round_half_even_of_int of_int_le_iff)
    then have "round_binary64 x \<le> of_int (2 ^ 53) * 2 powi (E - 52)"
      by (simp add: round_binary64_def qx mult_right_mono)
    also have "\<dots> = 2 powi (E + 1)"
      using two_powi_scale [of 53 "E - 52"] by (simp add: add.commute)
    also have "\<dots> \<le> 2 powi F" using lt by (intro power_int_increasing) simp_all
    finally have left: "round_binary64 x \<le> 2 powi F" .
    from binary_exponent_bounds [OF ypos] Fy have "2 powi F \<le> y" by simp
    then have "2 powi F / 2 powi (F - 52) \<le> y / quantum y"
      by (simp add: qy divide_right_mono)
    moreover have "(2::rat) powi F / 2 powi (F - 52) = of_int (2 ^ 52)"
      using two_powi_ratio [of 52 "F - 52"] by simp
    ultimately have "round_half_even (of_int (2 ^ 52)) \<le> round_half_even (y / quantum y)"
      by (simp only: round_half_even_mono)
    then have "(of_int (2 ^ 52) :: rat) \<le> of_int (round_half_even (y / quantum y))"
      by (simp only: round_half_even_of_int of_int_le_iff)
    then have "of_int (2 ^ 52) * 2 powi (F - 52) \<le> round_binary64 y"
      by (simp add: round_binary64_def qy mult_right_mono)
    moreover have "of_int (2 ^ 52) * 2 powi (F - 52) = (2::rat) powi F"
      using two_powi_scale [of 52 "F - 52"] by (simp add: add.commute)
    ultimately have "2 powi F \<le> round_binary64 y" by simp
    with left show ?thesis by linarith
  qed
qed

lemma round_binary64_nonneg: "0 < x \<Longrightarrow> 0 \<le> round_binary64 x"
proof -
  assume "0 < x"
  then have "0 \<le> x / quantum x" using quantum_pos [of x] by simp
  then have "round_half_even 0 \<le> round_half_even (x / quantum x)" by (rule round_half_even_mono)
  moreover have "round_half_even 0 = 0" using round_half_even_of_int [of 0] by simp
  ultimately have "(0::rat) \<le> of_int (round_half_even (x / quantum x))" by simp
  then show ?thesis using quantum_pos [of x] by (simp add: round_binary64_def)
qed

lemma round_binary64_eval:
  assumes "2 powi e \<le> x" "x < 2 powi (e + 1)" "- 1022 \<le> e"
  shows "round_binary64 x = of_int (round_half_even (x / 2 powi (e - 52))) * 2 powi (e - 52)"
  using binary_exponent_unique [OF assms(1,2)] assms(3)
  by (simp add: round_binary64_def quantum_def)

subsection \<open>The percentage of line 84 against 90\<close>

text \<open>
  The double nearest to 0.9 is \<open>8106479329266893 / 2^53\<close>, a little above 0.9, and 100
  times it rounds to 90 exactly; 100 times the double before it rounds to a double below
  90. A quotient is rounded to the first of the two exactly when it lies above the
  midpoint \<open>16212958658533785 / 2^54\<close>, which is \<open>0.9 - 3 / (10 * 2^53)\<close>.
\<close>

lemma round_binary64_one: "round_binary64 1 = 1"
proof -
  have "round_binary64 1 = of_int (round_half_even (1 / 2 powi (0 - 52))) * 2 powi (0 - 52)"
    by (rule round_binary64_eval) simp_all
  also have "(1::rat) / 2 powi (0 - 52) = of_int (2 ^ 52)"
    by (simp add: power_int_minus)
  finally show ?thesis by (simp only: round_half_even_of_int) (simp add: power_int_minus)
qed

lemma round_binary64_midpoint:
  "round_binary64 (16212958658533785 / 18014398509481984) = 8106479329266892 / 9007199254740992"
proof -
  let ?x = "16212958658533785 / 18014398509481984 :: rat"
  have "round_binary64 ?x = of_int (round_half_even (?x / 2 powi (- 1 - 52))) * 2 powi (- 1 - 52)"
    by (rule round_binary64_eval) (simp_all add: power_int_minus)
  moreover have "?x / 2 powi (- 1 - 52) = of_int 8106479329266892 + 1 / 2"
    by (simp add: power_int_minus)
  moreover have "round_half_even (of_int 8106479329266892 + 1 / 2) = 8106479329266892"
    by (simp add: round_half_even_tie)
  ultimately show ?thesis by (simp add: power_int_minus)
qed

lemma round_binary64_below_90:
  "round_binary64 (8106479329266892 / 9007199254740992 * 100) = 6333186975989759 / 70368744177664"
proof -
  let ?x = "8106479329266892 / 9007199254740992 * 100 :: rat"
  have "round_binary64 ?x = of_int (round_half_even (?x / 2 powi (6 - 52))) * 2 powi (6 - 52)"
    by (rule round_binary64_eval) (simp_all add: power_int_minus)
  moreover have "round_half_even (?x / 2 powi (6 - 52)) = 6333186975989759"
    by (rule round_half_even_near) (simp_all add: power_int_minus)
  ultimately show ?thesis by (simp add: power_int_minus)
qed

lemma round_binary64_90:
  "round_binary64 (8106479329266893 / 9007199254740992 * 100) = 90"
proof -
  let ?x = "8106479329266893 / 9007199254740992 * 100 :: rat"
  have "round_binary64 ?x = of_int (round_half_even (?x / 2 powi (6 - 52))) * 2 powi (6 - 52)"
    by (rule round_binary64_eval) (simp_all add: power_int_minus)
  moreover have "round_half_even (?x / 2 powi (6 - 52)) = 6333186975989760"
    by (rule round_half_even_near) (simp_all add: power_int_minus)
  ultimately show ?thesis by (simp add: power_int_minus)
qed

lemma times_100_below_90:
  assumes "0 \<le> r" "r \<le> 8106479329266892 / 9007199254740992"
  shows "\<not> js_ge (js_times (Finite r) (Finite 100)) (Finite 90)"
proof (cases "r = 0")
  case True
  then show ?thesis by (simp add: to_double_def)
next
  case False
  with assms(1) have pos: "0 < r * 100" by simp
  from assms(2) have "r * 100 \<le> 8106479329266892 / 9007199254740992 * 100" by simp
  with pos have "round_binary64 (r * 100)
      \<le> round_binary64 (8106479329266892 / 9007199254740992 * 100)"
    by (rule round_binary64_mono)
  then have le: "round_binary64 (r * 100) \<le> 6333186975989759 / 70368744177664"
    by (simp only: round_binary64_below_90)
  then have "\<not> 2 ^ 1024 \<le> round_binary64 (r * 100)" and "\<not> 90 \<le> round_binary64 (r * 100)"
    by simp_all
  with pos show ?thesis by (simp add: to_double_def)
qed

lemma times_100_at_least_90:
  assumes "8106479329266893 / 9007199254740992 \<le> r"
  shows "js_ge (js_times (Finite r) (Finite 100)) (Finite 90)"
proof -
  from assms have le: "8106479329266893 / 9007199254740992 * 100 \<le> r * 100" by simp
  then have pos: "0 < r * 100" by simp
  have "round_binary64 (8106479329266893 / 9007199254740992 * 100) \<le> round_binary64 (r * 100)"
    using le by (intro round_binary64_mono) simp_all
  then have "90 \<le> round_binary64 (r * 100)" by (simp only: round_binary64_90)
  with pos show ?thesis by (simp add: to_double_def)
qed

lemma round_binary64_below_midpoint:
  assumes "0 < x" "x \<le> 16212958658533785 / 18014398509481984"
  shows "round_binary64 x \<le> 8106479329266892 / 9007199254740992"
  using round_binary64_mono [OF assms] by (simp only: round_binary64_midpoint)

lemma round_binary64_above_midpoint:
  assumes "16212958658533785 / 18014398509481984 < x"
  shows "8106479329266893 / 9007199254740992 \<le> round_binary64 x"
proof (cases "x < 1")
  case True
  have "round_binary64 x = of_int (round_half_even (x / 2 powi (- 1 - 52))) * 2 powi (- 1 - 52)"
    using assms True by (intro round_binary64_eval) (simp_all add: power_int_minus)
  moreover have "8106479329266893 \<le> round_half_even (x / 2 powi (- 1 - 52))"
    using assms by (intro round_half_even_ge) (simp add: power_int_minus)
  then have "(of_int 8106479329266893 :: rat) \<le> of_int (round_half_even (x / 2 powi (- 1 - 52)))"
    by (simp only: of_int_le_iff)
  ultimately show ?thesis by (simp add: power_int_minus)
next
  case False
  then have "round_binary64 1 \<le> round_binary64 x" by (intro round_binary64_mono) simp_all
  then show ?thesis by (simp add: round_binary64_one)
qed

lemma times_100_ge_90_iff:
  assumes "0 \<le> x"
  shows "js_ge (js_times (to_double x) (Finite 100)) (Finite 90)
       \<longleftrightarrow> 16212958658533785 / 18014398509481984 < x"
proof (cases "16212958658533785 / 18014398509481984 < x")
  case True
  then have pos: "0 < x" by simp
  from True have r: "8106479329266893 / 9007199254740992 \<le> round_binary64 x"
    by (rule round_binary64_above_midpoint)
  have "js_ge (js_times (to_double x) (Finite 100)) (Finite 90)"
  proof (cases "2 ^ 1024 \<le> round_binary64 x")
    case True
    with pos show ?thesis by (simp add: to_double_def)
  next
    case False
    with pos have "to_double x = Finite (round_binary64 x)" by (simp add: to_double_def)
    with times_100_at_least_90 [OF r] show ?thesis by simp
  qed
  with True show ?thesis by simp
next
  case False
  have "\<not> js_ge (js_times (to_double x) (Finite 100)) (Finite 90)"
  proof (cases "x = 0")
    case True
    then show ?thesis by (simp add: to_double_def)
  next
    case nz: False
    with assms have pos: "0 < x" by simp
    from False have "x \<le> 16212958658533785 / 18014398509481984" by simp
    with pos have r: "round_binary64 x \<le> 8106479329266892 / 9007199254740992"
      by (rule round_binary64_below_midpoint)
    then have "\<not> 2 ^ 1024 \<le> round_binary64 x" by simp
    with pos have "to_double x = Finite (round_binary64 x)" by (simp add: to_double_def)
    with times_100_below_90 [OF round_binary64_nonneg [OF pos] r] show ?thesis by simp
  qed
  with False show ?thesis by simp
qed

text \<open>
  So the test of line 88 holds exactly when the session's usage over its quota lies above
  that midpoint (or the quota is zero and the usage is not).
\<close>

lemma usagePercent_ge_90_iff:
  "js_ge (usagePercent s) (Finite 90) \<longleftrightarrow>
     (if inputQuota s = 0 then 0 < inputUsage s
      else 16212958658533785 * inputQuota s < 18014398509481984 * inputUsage s)"
proof (cases "inputQuota s = 0")
  case True
  then show ?thesis by (simp add: usagePercent_def js_divide_def)
next
  case False
  then have q: "0 < (of_nat (inputQuota s) :: rat)" by simp
  have "js_ge (usagePercent s) (Finite 90)
      \<longleftrightarrow> 16212958658533785 / 18014398509481984
            < (of_nat (inputUsage s) :: rat) / of_nat (inputQuota s)"
    using False by (simp add: usagePercent_def js_divide_def times_100_ge_90_iff)
  also have "\<dots> \<longleftrightarrow> (of_nat (16212958658533785 * inputQuota s) :: rat)
      < of_nat (18014398509481984 * inputUsage s)"
    using q by (simp add: pos_less_divide_eq field_simps)
  also have "\<dots> \<longleftrightarrow> 16212958658533785 * inputQuota s < 18014398509481984 * inputUsage s"
    by (simp only: of_nat_less_iff)
  finally show ?thesis using False by simp
qed

lemma quota_ratio_ge_iff:
  "js_ge (quota_ratio s) (Finite (9 / 10)) =
     (if inputQuota s = 0 then 0 < inputUsage s else 90 * inputQuota s \<le> 100 * inputUsage s)"
proof (cases "inputQuota s = 0")
  case True
  then show ?thesis by (simp add: quota_ratio_def)
next
  case False
  then have q: "0 < (of_nat (inputQuota s) :: rat)" by simp
  have "(9 / 10 \<le> (of_nat (inputUsage s) :: rat) / of_nat (inputQuota s))
        = ((9 / 10) * of_nat (inputQuota s) \<le> (of_nat (inputUsage s) :: rat))"
    using q by (simp add: pos_le_divide_eq)
  also have "\<dots> = (of_nat (90 * inputQuota s) \<le> (of_nat (100 * inputUsage s) :: rat))"
    by (simp add: mult.commute)
  also have "\<dots> = (90 * inputQuota s \<le> 100 * inputUsage s)"
    by (simp only: of_nat_le_iff)
  finally show ?thesis using False by (simp add: quota_ratio_def)
qed


text \<open>At 90 percent or more of the quota the test always holds.\<close>

lemma usagePercent_ge_90_of_ratio:
  "js_ge (quota_ratio s) (Finite (9 / 10)) \<Longrightarrow> js_ge (usagePercent s) (Finite 90)"
  by (simp add: quota_ratio_ge_iff usagePercent_ge_90_iff split: if_splits)


subsection \<open>What each method does, case by case\<close>

lemma destroySession_None: "currentSession (destroySession w) = None"
  by (simp add: destroySession_def session_destroy_def split: option.splits)

lemma destroySession_calls:
  "calls (destroySession w) = calls w @ (case currentSession w of None \<Rightarrow> [] | Some r \<Rightarrow> [Destroy r])"
  by (simp add: destroySession_def session_destroy_def split: option.splits)

lemma destroySession_idem: "destroySession (destroySession w) = destroySession w"
  by (simp add: destroySession_def session_destroy_def split: option.splits)

lemma ensureSession_reuse:
  assumes "currentSession w = Some r" "r < length (heap w)"
    "\<not> js_ge (usagePercent (heap w ! r)) (Finite 90)"
  shows "ensureSession h w = (Inr r, w)"
  using assms
  by (simp add: ensureSession_def await_then_def current_object_def return_ok_def)

lemma ensureSession_refresh:
  assumes "currentSession w = Some r" "r < length (heap w)"
    "js_ge (usagePercent (heap w ! r)) (Finite 90)"
  shows "ensureSession h w =
     (case clone_reply h w r of
        Inl e \<Rightarrow> (Inl e, w\<lparr>calls := calls w @ [Clone r]\<rparr>)
      | Inr uq \<Rightarrow> (Inr (length (heap w)),
          w\<lparr>currentSession := Some (length (heap w)),
            heap := (heap w)[r := (heap w ! r)\<lparr>destroyed := True\<rparr>] @ [new_session uq],
            calls := calls w @ [Clone r, Destroy r]\<rparr>))"
  using assms
  by (simp add: ensureSession_def await_then_def current_object_def return_ok_def
      session_clone_def session_destroy_def list_update_append1 nth_append split: sum.splits)

lemma ensureSession_dangling:
  assumes "currentSession w = Some r" "\<not> r < length (heap w)"
  shows "ensureSession h w = (Inl typeError, w)"
  using assms
  by (simp add: ensureSession_def await_then_def current_object_def)

lemma ensureSession_create:
  assumes "currentSession w = None"
  shows "ensureSession h w =
     (if \<not> hasLanguageModel h then (Inl referenceError, w)
      else case create_reply h w of
        Inl e \<Rightarrow> (Inl e, w\<lparr>calls := calls w @ [Create sessionOptions]\<rparr>)
      | Inr uq \<Rightarrow> ensureSession h
          (w\<lparr>heap := heap w @ [new_session uq],
             calls := calls w @ [Create sessionOptions],
             currentSession := Some (length (heap w))\<rparr>))"
  using assms
  by (simp add: ensureSession_def await_then_def LanguageModel_create_def split: sum.splits)

lemma ensureSession_existing_calls:
  assumes "currentSession w = Some r"
  shows "\<exists>cs. calls (snd (ensureSession h w)) = calls w @ cs \<and> filter is_create cs = []
     \<and> length (heap w) \<le> length (heap (snd (ensureSession h w)))
     \<and> (\<forall>i < length (heap w).
           inputUsage (heap (snd (ensureSession h w)) ! i) = inputUsage (heap w ! i)
         \<and> inputQuota (heap (snd (ensureSession h w)) ! i) = inputQuota (heap w ! i))"
proof (cases "r < length (heap w)")
  case False
  with assms show ?thesis by (simp add: ensureSession_dangling)
next
  case True
  show ?thesis
  proof (cases "js_ge (usagePercent (heap w ! r)) (Finite 90)")
    case False
    with assms True show ?thesis by (simp add: ensureSession_reuse)
  next
    case ge: True
    show ?thesis
    proof (cases "clone_reply h w r")
      case (Inl e)
      with assms True ge show ?thesis by (simp add: ensureSession_refresh)
    next
      case (Inr uq)
      with assms True ge show ?thesis
        by (simp add: ensureSession_refresh nth_append nth_list_update)
    qed
  qed
qed

lemma ensureSession_existing_success:
  assumes "currentSession w = Some r0" "ensureSession h w = (Inr r, w1)"
  shows "currentSession w1 = Some r \<and> r < length (heap w1)"
proof (cases "r0 < length (heap w)")
  case False
  with assms show ?thesis by (simp add: ensureSession_dangling)
next
  case True
  show ?thesis
  proof (cases "js_ge (usagePercent (heap w ! r0)) (Finite 90)")
    case False
    with assms True show ?thesis by (auto simp add: ensureSession_reuse)
  next
    case ge: True
    show ?thesis
    proof (cases "clone_reply h w r0")
      case (Inl e)
      with assms True ge show ?thesis by (simp add: ensureSession_refresh)
    next
      case (Inr uq)
      with assms True ge show ?thesis
        by (auto simp add: ensureSession_refresh)
    qed
  qed
qed

lemma ensureSession_success:
  assumes "ensureSession h w = (Inr r, w1)"
  shows "currentSession w1 = Some r \<and> r < length (heap w1)"
proof (cases "currentSession w")
  case (Some r0)
  from Some assms show ?thesis by (rule ensureSession_existing_success)
next
  case None
  show ?thesis
  proof (cases "hasLanguageModel h")
    case False
    with None assms show ?thesis by (simp add: ensureSession_create)
  next
    case True
    show ?thesis
    proof (cases "create_reply h w")
      case (Inl e)
      with None True assms show ?thesis by (simp add: ensureSession_create)
    next
      case (Inr uq)
      let ?w = "w\<lparr>heap := heap w @ [new_session uq],
             calls := calls w @ [Create sessionOptions],
             currentSession := Some (length (heap w))\<rparr>"
      from None True Inr assms have "ensureSession h ?w = (Inr r, w1)"
        by (simp add: ensureSession_create)
      moreover have "currentSession ?w = Some (length (heap w))" by simp
      ultimately show ?thesis by (rule ensureSession_existing_success [rotated])
    qed
  qed
qed

lemma ensureSession_failure_no_create_session:
  assumes "currentSession w = None" "LanguageModel_create h sessionOptions w = (Inl e, w1)"
  shows "ensureSession h w = (Inl e, w1) \<and> currentSession w1 = None"
  using assms
  by (auto simp add: ensureSession_def await_then_def LanguageModel_create_def
      split: sum.splits if_splits)

lemma warmupSession_eq:
  "warmupSession h w = (Inr (), snd (ensureSession h w))"
  by (simp add: warmupSession_def try_catch_def await_then_def return_ok_def
      split: prod.splits sum.splits)

lemma getChromeAiResponse_no_model:
  "\<not> hasLanguageModel h \<Longrightarrow>
     getChromeAiResponse h m w = (Inl notAvailableError, destroySession w)"
  by (simp add: getChromeAiResponse_def try_catch_def await_then_def throw_def)

lemma getChromeAiResponse_ensure_fails:
  "hasLanguageModel h \<Longrightarrow> ensureSession h w = (Inl e, w1) \<Longrightarrow>
     getChromeAiResponse h m w = (Inl e, destroySession w1)"
  by (simp add: getChromeAiResponse_def try_catch_def await_then_def throw_def return_ok_def)

lemma getChromeAiResponse_prompt:
  "hasLanguageModel h \<Longrightarrow> ensureSession h w = (Inr r, w1) \<Longrightarrow>
     getChromeAiResponse h m w =
       (case session_prompt h r m w1 of
          (Inl e, w2) \<Rightarrow> (Inl e, destroySession w2)
        | (Inr response, w2) \<Rightarrow> (Inr response, w2))"
  by (simp add: getChromeAiResponse_def try_catch_def await_then_def throw_def return_ok_def
      split: prod.splits sum.splits)

lemma getChromeAiResponse_failure_no_session:
  assumes "getChromeAiResponse h m w = (Inl e, w')"
  shows "currentSession w' = None"
proof (cases "hasLanguageModel h")
  case False
  with assms show ?thesis by (auto simp add: getChromeAiResponse_no_model destroySession_None)
next
  case True
  obtain res w1 where ens: "ensureSession h w = (res, w1)" by (cases "ensureSession h w")
  show ?thesis
  proof (cases res)
    case (Inl e1)
    with True ens assms show ?thesis
      by (auto simp add: getChromeAiResponse_ensure_fails destroySession_None)
  next
    case (Inr r)
    with True ens assms show ?thesis
      by (auto simp add: getChromeAiResponse_prompt destroySession_None
          split: prod.splits sum.splits)
  qed
qed

lemma new_calls_append [simp]: "calls w' = calls w @ cs \<Longrightarrow> new_calls w w' = cs"
  by (simp add: new_calls_def)

lemma new_calls_self [simp]: "new_calls w w = []"
  by (simp add: new_calls_def)

lemma ensureSession_existing_current:
  assumes "currentSession w = Some r"
  shows "currentSession (snd (ensureSession h w)) = Some r
       \<or> currentSession (snd (ensureSession h w)) = Some (length (heap w))"
proof (cases "r < length (heap w)")
  case False
  with assms show ?thesis by (simp add: ensureSession_dangling)
next
  case True
  show ?thesis
  proof (cases "js_ge (usagePercent (heap w ! r)) (Finite 90)")
    case False
    with assms True show ?thesis by (simp add: ensureSession_reuse)
  next
    case ge: True
    with assms True show ?thesis
      by (cases "clone_reply h w r") (simp_all add: ensureSession_refresh)
  qed
qed

lemma wf_ensureSession_existing:
  assumes "currentSession w = Some r" "r < length (heap w)"
  shows "wf (snd (ensureSession h w))"
proof (cases "js_ge (usagePercent (heap w ! r)) (Finite 90)")
  case False
  with assms show ?thesis by (simp add: ensureSession_reuse wf_def)
next
  case True
  with assms show ?thesis
    by (cases "clone_reply h w r") (simp_all add: ensureSession_refresh wf_def)
qed

lemma wf_ensureSession: "wf w \<Longrightarrow> wf (snd (ensureSession h w))"
proof (cases "currentSession w")
  case (Some r)
  assume "wf w"
  with Some have "r < length (heap w)" by (simp add: wf_def)
  with Some show ?thesis by (rule wf_ensureSession_existing)
next
  case None
  have "wf (snd (ensureSession h
          (w\<lparr>heap := heap w @ [new_session uq], calls := calls w @ [Create sessionOptions],
             currentSession := Some (length (heap w))\<rparr>)))" for uq
    by (rule wf_ensureSession_existing [where r = "length (heap w)"]) simp_all
  with None show ?thesis
    by (simp add: ensureSession_create wf_def split: sum.splits)
qed

lemma wf_destroySession: "wf (destroySession w)"
  by (simp add: wf_def destroySession_None)

lemma wf_initial_world: "wf initial_world"
  by (simp add: wf_def initial_world_def)

lemma wf_warmupSession: "wf w \<Longrightarrow> wf (snd (warmupSession h w))"
  by (simp add: warmupSession_eq wf_ensureSession)

lemma session_prompt_current:
  "currentSession (snd (session_prompt h r m w)) = currentSession w
   \<and> length (heap (snd (session_prompt h r m w))) = length (heap w)
   \<and> calls (snd (session_prompt h r m w)) = calls w @ [Prompt r m]"
  by (simp add: session_prompt_def split: sum.splits prod.splits)

lemma wf_session_prompt: "wf w \<Longrightarrow> wf (snd (session_prompt h r m w))"
  by (simp add: wf_def session_prompt_current split: option.splits)

lemma wf_getChromeAiResponse: "wf w \<Longrightarrow> wf (snd (getChromeAiResponse h m w))"
proof (cases "hasLanguageModel h")
  case False
  then show ?thesis by (simp add: getChromeAiResponse_no_model wf_destroySession)
next
  case True
  assume wf: "wf w"
  obtain res w1 where ens: "ensureSession h w = (res, w1)" by (cases "ensureSession h w")
  show ?thesis
  proof (cases res)
    case (Inl e)
    with True ens show ?thesis
      by (simp add: getChromeAiResponse_ensure_fails wf_destroySession)
  next
    case (Inr r)
    from wf ens have "wf w1" using wf_ensureSession [of w h] by simp
    then have "wf (snd (session_prompt h r m w1))" by (rule wf_session_prompt)
    with Inr True ens show ?thesis
      by (auto simp add: getChromeAiResponse_prompt wf_destroySession split: prod.splits sum.splits)
  qed
qed

lemma ensureSession_calls_extend:
  "\<exists>cs. calls (snd (ensureSession h w)) = calls w @ cs"
proof (cases "currentSession w")
  case (Some r)
  then show ?thesis using ensureSession_existing_calls [of w r h] by blast
next
  case None
  have "\<exists>cs. calls (snd (ensureSession h
          (w\<lparr>heap := heap w @ [new_session uq], calls := calls w @ [Create sessionOptions],
             currentSession := Some (length (heap w))\<rparr>))) = calls w @ cs" for uq
    using ensureSession_existing_calls
      [of "w\<lparr>heap := heap w @ [new_session uq], calls := calls w @ [Create sessionOptions],
             currentSession := Some (length (heap w))\<rparr>" "length (heap w)" h]
    by auto
  with None show ?thesis
    by (simp add: ensureSession_create split: sum.splits)
qed

lemma ensureSession_create_calls:
  assumes "currentSession w = None" "hasLanguageModel h"
  shows "\<exists>cs. calls (snd (ensureSession h w)) = calls w @ Create sessionOptions # cs
            \<and> filter is_create cs = []"
proof (cases "create_reply h w")
  case (Inl e)
  with assms show ?thesis by (simp add: ensureSession_create)
next
  case (Inr uq)
  let ?w = "w\<lparr>heap := heap w @ [new_session uq], calls := calls w @ [Create sessionOptions],
             currentSession := Some (length (heap w))\<rparr>"
  have "currentSession ?w = Some (length (heap w))" by simp
  from ensureSession_existing_calls [OF this, of h]
  obtain cs where "calls (snd (ensureSession h ?w)) = calls ?w @ cs" "filter is_create cs = []"
    by blast
  with assms Inr show ?thesis by (simp add: ensureSession_create)
qed

lemma getChromeAiResponse_calls_after_ensure:
  assumes "hasLanguageModel h"
  shows "\<exists>cs. calls (snd (getChromeAiResponse h m w)) = calls (snd (ensureSession h w)) @ cs
            \<and> filter is_create cs = []"
proof -
  obtain res w1 where ens: "ensureSession h w = (res, w1)" by (cases "ensureSession h w")
  show ?thesis
  proof (cases res)
    case (Inl e)
    with assms ens show ?thesis
      by (simp add: getChromeAiResponse_ensure_fails destroySession_calls split: option.splits)
  next
    case (Inr r)
    with assms ens show ?thesis
      by (simp add: getChromeAiResponse_prompt session_prompt_def destroySession_calls
          destroySession_def session_destroy_def
          split: prod.splits sum.splits option.splits)
  qed
qed

lemma getChromeAiResponse_recreates:
  assumes "currentSession w = None" "hasLanguageModel h"
  shows "\<exists>cs. new_calls w (snd (getChromeAiResponse h m w)) = Create sessionOptions # cs"
proof -
  from ensureSession_create_calls [OF assms]
  obtain cs where a: "calls (snd (ensureSession h w)) = calls w @ Create sessionOptions # cs"
    by blast
  from getChromeAiResponse_calls_after_ensure [OF assms(2), of m w]
  obtain ds where "calls (snd (getChromeAiResponse h m w)) = calls (snd (ensureSession h w)) @ ds"
    by blast
  with a have "calls (snd (getChromeAiResponse h m w)) = calls w @ (Create sessionOptions # cs @ ds)"
    by simp
  then show ?thesis by (simp only: new_calls_append) blast
qed

lemma session_prompt_rejects:
  "prompt_reply h w r m = Inl e \<Longrightarrow>
     session_prompt h r m w = (Inl e, w\<lparr>calls := calls w @ [Prompt r m]\<rparr>)"
  by (simp add: session_prompt_def)

lemma checkChromeAiAvailability_resolves:
  "\<exists>res. fst (checkChromeAiAvailability h w) = Inr res"
  by (simp add: checkChromeAiAvailability_def try_catch_def await_then_def return_ok_def
      LanguageModel_availability_def split: sum.splits prod.splits)

lemma canSendMessage_needs_available: "canSendMessage c \<Longrightarrow> chromeAiAvailable c"
  by (simp add: canSendMessage_def)

lemma checkChromeAiAvailability_available:
  "hasLanguageModel h \<Longrightarrow>
     (\<exists>res. checkChromeAiAvailability h w = (Inr res, w\<lparr>calls := calls w @ [Availability]\<rparr>)
        \<and> (available res \<longleftrightarrow> availability_reply h w = Inr Available))"
  by (cases "availability_reply h w")
    (auto simp add: checkChromeAiAvailability_def try_catch_def await_then_def return_ok_def
      LanguageModel_availability_def)

lemma ngOnInit_when_available:
  assumes "isChromeAiAvailable h" "availability_reply h w = Inr Available"
  shows "ngOnInit h (c, w)
     = (c\<lparr>chromeAiAvailable := True\<rparr>,
        snd (warmupSession h (w\<lparr>calls := calls w @ [Availability]\<rparr>)))"
proof -
  from assms(1) have lm: "hasLanguageModel h" by (simp add: isChromeAiAvailable_def)
  from checkChromeAiAvailability_available [OF lm, of w] assms(2)
  obtain res where "checkChromeAiAvailability h w
      = (Inr res, w\<lparr>calls := calls w @ [Availability]\<rparr>)" "available res" by blast
  with assms(1) show ?thesis
    by (simp add: ngOnInit_def ngOnInit_resume_def ngOnInit_until_await_def Let_def
        warmupSession_eq)
qed

lemma ngOnInit_available_only_then:
  assumes "chromeAiAvailable (fst (ngOnInit h (c, w)))"
  shows "isChromeAiAvailable h \<and> availability_reply h w = Inr Available"
proof (cases "isChromeAiAvailable h")
  case False
  with assms show ?thesis
    by (simp add: ngOnInit_def ngOnInit_resume_def ngOnInit_until_await_def Let_def)
next
  case True
  then have lm: "hasLanguageModel h" by (simp add: isChromeAiAvailable_def)
  from checkChromeAiAvailability_available [OF lm, of w]
  obtain res where res: "checkChromeAiAvailability h w
      = (Inr res, w\<lparr>calls := calls w @ [Availability]\<rparr>)"
      "available res \<longleftrightarrow> availability_reply h w = Inr Available" by blast
  with assms True show ?thesis
    by (auto simp add: ngOnInit_def ngOnInit_resume_def ngOnInit_until_await_def Let_def
        warmupSession_eq split: if_splits)
qed

subsection \<open>The claims\<close>

text \<open>
  C1. Before each use, \<open>ensureSession\<close> looks at the current session's consumed input
  quota divided by its total quota. When that quotient is at least 0.90 and the browser
  grants the clone, the call returns the clone, the clone is the current session from
  then on, and the old session has been destroyed: the calls made are one \<^verbatim>\<open>clone()\<close> on
  the old session followed by one \<^verbatim>\<open>destroy()\<close> on it. (A call that starts with no
  session reaches the same check on the session it has just created, by
  \<open>ensureSession_create\<close>.)
\<close>

theorem ensureSession_refreshes_at_90_percent:
  assumes "currentSession w = Some oldSession" and "oldSession < length (heap w)"
    and "js_ge (quota_ratio (heap w ! oldSession)) (Finite (9 / 10))"
    and "clone_reply h w oldSession = Inr uq"
    and "ensureSession h w = (res, w')"
  shows "res = Inr (length (heap w))
       \<and> currentSession w' = Some (length (heap w))
       \<and> length (heap w) \<noteq> oldSession
       \<and> heap w' ! length (heap w) = new_session uq
       \<and> \<not> is_destroyed w' (length (heap w))
       \<and> is_destroyed w' oldSession
       \<and> new_calls w w' = [Clone oldSession, Destroy oldSession]"
  using assms
  by (auto simp add: ensureSession_refresh usagePercent_ge_90_of_ratio is_destroyed_def
      nth_append new_session_def)

theorem ensureSession_refreshes_at_90_percent_witness:
  "js_ge (quota_ratio (heap (world_with_session 95 100) ! 0)) (Finite (9 / 10))
   \<and> fst (ensureSession (fixed_host (Inr (0, 100)) (Inr (95, 100)) (Inr (''ok'', 99)))
           (world_with_session 95 100)) = Inr 1
   \<and> currentSession (snd (ensureSession (fixed_host (Inr (0, 100)) (Inr (95, 100)) (Inr (''ok'', 99)))
           (world_with_session 95 100))) = Some 1
   \<and> is_destroyed (snd (ensureSession (fixed_host (Inr (0, 100)) (Inr (95, 100)) (Inr (''ok'', 99)))
           (world_with_session 95 100))) 0"
  using ensureSession_refreshes_at_90_percent
    [of "world_with_session 95 100" 0 "fixed_host (Inr (0, 100)) (Inr (95, 100)) (Inr (''ok'', 99))"
        "(95, 100)"
        "fst (ensureSession (fixed_host (Inr (0, 100)) (Inr (95, 100)) (Inr (''ok'', 99)))
           (world_with_session 95 100))"
        "snd (ensureSession (fixed_host (Inr (0, 100)) (Inr (95, 100)) (Inr (''ok'', 99)))
           (world_with_session 95 100))"]
  by (simp add: world_with_session_def fixed_host_def quota_ratio_def)

text \<open>
  C2. \<open>ensureSession\<close> creates the session lazily. Called with no session, it issues
  exactly one \<^verbatim>\<open>LanguageModel.create\<close>, with the fixed options: temperature 0.8, topK 3
  and the system prompt as the only initial prompt; when the browser grants it, one new
  session object exists afterwards with the usage and quota the browser gave it, and the
  service holds it (or its clone, if it had to be refreshed at once). Called with a
  session in hand, it issues no \<^verbatim>\<open>create\<close> at all.
\<close>

theorem ensureSession_creates_lazily:
  "(currentSession w = None \<longrightarrow> hasLanguageModel h \<longrightarrow>
      filter is_create (new_calls w (snd (ensureSession h w))) = [Create sessionOptions])
   \<and> (currentSession w = None \<longrightarrow> hasLanguageModel h \<longrightarrow> create_reply h w = Inr uq \<longrightarrow>
      length (heap w) < length (heap (snd (ensureSession h w)))
      \<and> inputUsage (heap (snd (ensureSession h w)) ! length (heap w)) = fst uq
      \<and> inputQuota (heap (snd (ensureSession h w)) ! length (heap w)) = snd uq
      \<and> (currentSession (snd (ensureSession h w)) = Some (length (heap w))
         \<or> currentSession (snd (ensureSession h w)) = Some (Suc (length (heap w)))))
   \<and> (currentSession w \<noteq> None \<longrightarrow>
      filter is_create (new_calls w (snd (ensureSession h w))) = [])
   \<and> temperature sessionOptions = 8 / 10 \<and> topK sessionOptions = 3
   \<and> initialPrompts sessionOptions = [\<lparr>role = System, content = systemPrompt\<rparr>]"
proof -
  have a: "filter is_create (new_calls w (snd (ensureSession h w))) = [Create sessionOptions]"
    if "currentSession w = None" "hasLanguageModel h"
  proof -
    from ensureSession_create_calls [OF that]
    obtain cs where "calls (snd (ensureSession h w)) = calls w @ Create sessionOptions # cs"
      "filter is_create cs = []" by blast
    then show ?thesis by simp
  qed
  have b: "length (heap w) < length (heap (snd (ensureSession h w)))
      \<and> inputUsage (heap (snd (ensureSession h w)) ! length (heap w)) = fst uq
      \<and> inputQuota (heap (snd (ensureSession h w)) ! length (heap w)) = snd uq
      \<and> (currentSession (snd (ensureSession h w)) = Some (length (heap w))
         \<or> currentSession (snd (ensureSession h w)) = Some (Suc (length (heap w))))"
    if "currentSession w = None" "hasLanguageModel h" "create_reply h w = Inr uq"
  proof -
    let ?w = "w\<lparr>heap := heap w @ [new_session uq], calls := calls w @ [Create sessionOptions],
             currentSession := Some (length (heap w))\<rparr>"
    have cur: "currentSession ?w = Some (length (heap w))" by simp
    have eq: "ensureSession h w = ensureSession h ?w"
      using that by (simp add: ensureSession_create)
    from ensureSession_existing_calls [OF cur, of h] ensureSession_existing_current [OF cur, of h]
    show ?thesis unfolding eq by (auto simp add: new_session_def)
  qed
  have c: "filter is_create (new_calls w (snd (ensureSession h w))) = []"
    if "currentSession w \<noteq> None"
  proof -
    from that obtain r where "currentSession w = Some r" by auto
    from ensureSession_existing_calls [OF this, of h]
    obtain cs where "calls (snd (ensureSession h w)) = calls w @ cs"
      "filter is_create cs = []" by blast
    then show ?thesis by simp
  qed
  from a b c show ?thesis by (simp add: sessionOptions_def)
qed

theorem ensureSession_creates_lazily_witness:
  "currentSession initial_world = None
   \<and> hasLanguageModel (fixed_host (Inr (12, 100)) (Inr (12, 100)) (Inr (''ok'', 20)))
   \<and> create_reply (fixed_host (Inr (12, 100)) (Inr (12, 100)) (Inr (''ok'', 20))) initial_world
       = Inr (12, 100)
   \<and> currentSession (world_with_session 12 100) \<noteq> None
   \<and> filter is_create (new_calls initial_world
        (snd (ensureSession (fixed_host (Inr (12, 100)) (Inr (12, 100)) (Inr (''ok'', 20)))
           initial_world))) = [Create sessionOptions]
   \<and> inputQuota (heap (snd (ensureSession (fixed_host (Inr (12, 100)) (Inr (12, 100))
        (Inr (''ok'', 20))) initial_world)) ! 0) = 100
   \<and> filter is_create (new_calls (world_with_session 12 100)
        (snd (ensureSession (fixed_host (Inr (12, 100)) (Inr (12, 100)) (Inr (''ok'', 20)))
           (world_with_session 12 100)))) = []"
  using ensureSession_creates_lazily
      [of initial_world "fixed_host (Inr (12, 100)) (Inr (12, 100)) (Inr (''ok'', 20))" "(12, 100)"]
    ensureSession_creates_lazily
      [of "world_with_session 12 100"
          "fixed_host (Inr (12, 100)) (Inr (12, 100)) (Inr (''ok'', 20))" "(12, 100)"]
  by (simp add: initial_world_def world_with_session_def fixed_host_def)

text \<open>
  C3. When the generation step of \<open>getChromeAiResponse\<close> fails, that is, when
  \<^verbatim>\<open>session.prompt(userMessage)\<close> rejects with any error \<open>e\<close>, the call fails with that
  same error, the session it used has been destroyed (one \<^verbatim>\<open>destroy()\<close> right after the
  prompt) and the service holds no session; so the next call starts by creating a session
  again, with the fixed options. (\<open>getChromeAiResponse_failure_no_session\<close> says the
  service holds no session after a failure of any other step either.)
\<close>

theorem getChromeAiResponse_discards_session_on_error:
  assumes "hasLanguageModel h"
    and "ensureSession h w = (Inr session, w1)"
    and "prompt_reply h w1 session userMessage = Inl e"
    and "getChromeAiResponse h userMessage w = (res, w')"
  shows "res = Inl e
       \<and> currentSession w' = None
       \<and> is_destroyed w' session
       \<and> new_calls w1 w' = [Prompt session userMessage, Destroy session]
       \<and> (\<exists>cs. new_calls w' (snd (getChromeAiResponse h nextMessage w'))
                 = Create sessionOptions # cs)"
proof -
  from ensureSession_success [OF assms(2)]
  have cur: "currentSession w1 = Some session" and len: "session < length (heap w1)" by simp_all
  let ?w2 = "w1\<lparr>calls := calls w1 @ [Prompt session userMessage]\<rparr>"
  from assms have eq: "res = Inl e \<and> w' = destroySession ?w2"
    by (simp add: getChromeAiResponse_prompt session_prompt_rejects)
  then have none: "currentSession w' = None" by (simp add: destroySession_None)
  from eq cur len have "is_destroyed w' session"
    and "new_calls w1 w' = [Prompt session userMessage, Destroy session]"
    by (simp_all add: destroySession_def session_destroy_def is_destroyed_def)
  moreover from getChromeAiResponse_recreates [OF none assms(1)]
  have "\<exists>cs. new_calls w' (snd (getChromeAiResponse h nextMessage w')) = Create sessionOptions # cs" .
  ultimately show ?thesis using eq none by simp
qed

theorem getChromeAiResponse_discards_session_on_error_witness:
  "hasLanguageModel (fixed_host (Inr (12, 100)) (Inr (12, 100)) (Inl quotaExceeded))
   \<and> ensureSession (fixed_host (Inr (12, 100)) (Inr (12, 100)) (Inl quotaExceeded))
        (world_with_session 12 100) = (Inr 0, world_with_session 12 100)
   \<and> prompt_reply (fixed_host (Inr (12, 100)) (Inr (12, 100)) (Inl quotaExceeded))
        (world_with_session 12 100) 0 ''Buenas'' = Inl quotaExceeded
   \<and> fst (getChromeAiResponse (fixed_host (Inr (12, 100)) (Inr (12, 100)) (Inl quotaExceeded))
        ''Buenas'' (world_with_session 12 100)) = Inl quotaExceeded
   \<and> currentSession (snd (getChromeAiResponse
        (fixed_host (Inr (12, 100)) (Inr (12, 100)) (Inl quotaExceeded))
        ''Buenas'' (world_with_session 12 100))) = None
   \<and> is_destroyed (snd (getChromeAiResponse
        (fixed_host (Inr (12, 100)) (Inr (12, 100)) (Inl quotaExceeded))
        ''Buenas'' (world_with_session 12 100))) 0"
proof -
  let ?h = "fixed_host (Inr (12, 100)) (Inr (12, 100)) (Inl quotaExceeded)"
  let ?w = "world_with_session 12 100"
  have lm: "hasLanguageModel ?h" by (simp add: fixed_host_def)
  have ens: "ensureSession ?h ?w = (Inr 0, ?w)"
    by (rule ensureSession_reuse)
      (simp_all add: world_with_session_def usagePercent_ge_90_iff)
  have rep: "prompt_reply ?h ?w 0 ''Buenas'' = Inl quotaExceeded"
    by (simp add: fixed_host_def)
  have run: "getChromeAiResponse ?h ''Buenas'' ?w
      = (fst (getChromeAiResponse ?h ''Buenas'' ?w), snd (getChromeAiResponse ?h ''Buenas'' ?w))"
    by simp
  from getChromeAiResponse_discards_session_on_error [OF lm ens rep run] lm ens rep
  show ?thesis by simp
qed

text \<open>
  C4. \<open>destroySession\<close> is the teardown. From every state the service holds no session
  afterwards; when it held session \<open>r\<close>, exactly one call is made to the browser and it
  is \<^verbatim>\<open>destroy()\<close> on \<open>r\<close>, leaving that object destroyed; when it held none, no call
  is made.
\<close>

theorem destroySession_tears_down:
  "currentSession (destroySession w) = None
   \<and> (currentSession w = None \<longrightarrow> new_calls w (destroySession w) = [])
   \<and> (currentSession w = Some r \<longrightarrow>
        new_calls w (destroySession w) = [Destroy r]
        \<and> (r < length (heap w) \<longrightarrow> is_destroyed (destroySession w) r))"
  by (simp add: destroySession_def session_destroy_def is_destroyed_def new_calls_def
      split: option.splits)

theorem destroySession_tears_down_witness:
  "currentSession (world_with_session 5 100) = Some 0
   \<and> 0 < length (heap (world_with_session 5 100))
   \<and> currentSession initial_world = None
   \<and> currentSession (destroySession (world_with_session 5 100)) = None
   \<and> new_calls (world_with_session 5 100) (destroySession (world_with_session 5 100)) = [Destroy 0]
   \<and> is_destroyed (destroySession (world_with_session 5 100)) 0
   \<and> new_calls initial_world (destroySession initial_world) = []"
  using destroySession_tears_down [of "world_with_session 5 100" 0]
    destroySession_tears_down [of initial_world 0]
  by (simp add: world_with_session_def initial_world_def)




text \<open>
  The bound on the quota is needed: at 8106479329266890 of 9007199254740989 tokens the
  session is below 90 percent of its quota and is replaced all the same, because the
  percentage of line 84 rounds to 90.
\<close>

lemma replaced_below_90_percent_at_large_quota:
  "currentSession (snd (ensureSession
       (fixed_host (Inr (0, 9007199254740989))
          (Inr (8106479329266890, 9007199254740989)) (Inr (''ok'', 0)))
       (world_with_session 8106479329266890 9007199254740989))) = Some 1
   \<and> \<not> 90 * inputQuota (heap (world_with_session 8106479329266890 9007199254740989) ! 0)
        \<le> 100 * inputUsage (heap (world_with_session 8106479329266890 9007199254740989) ! 0)"
  by (simp add: world_with_session_def fixed_host_def ensureSession_refresh
      usagePercent_ge_90_iff)

text \<open>
  C6, as the code has it. A warm-up whose \<open>ensureSession\<close> succeeds leaves the service
  holding a session, and the \<open>getChromeAiResponse\<close> that follows issues no
  \<^verbatim>\<open>LanguageModel.create\<close>. \<open>ngOnInit\<close>, run to its end, calls \<open>warmupSession\<close> when
  the synchronous check passes and \<^verbatim>\<open>availability()\<close> answers \<^verbatim>\<open>'available'\<close>: it leaves
  \<open>chromeAiAvailable\<close> true and the service in the state the warm-up produced. After
  \<open>ngOnInit\<close> has ended a message, whatever is typed then, can be sent only in that case,
  so only after the warm-up. While \<open>ngOnInit\<close> waits at its first \<^verbatim>\<open>await\<close> a message can
  be sent as soon as the synchronous check has passed (line 100), the input is not blank
  and nothing is being sent.
\<close>

theorem warmupSession_prepares_first_message:
  "(ensureSession h w = (Inr r, w1) \<longrightarrow>
      warmupSession h w = (Inr (), w1) \<and> currentSession w1 = Some r
      \<and> filter is_create (new_calls w1 (snd (getChromeAiResponse h userMessage w1))) = [])
   \<and> (isChromeAiAvailable h \<longrightarrow> availability_reply h w0 = Inr Available \<longrightarrow>
      ngOnInit h (c, w0)
        = (c\<lparr>chromeAiAvailable := True\<rparr>,
           snd (warmupSession h (w0\<lparr>calls := calls w0 @ [Availability]\<rparr>))))
   \<and> (canSendMessage ((fst (ngOnInit h (c, w0)))\<lparr>userInput := input\<rparr>) \<longrightarrow>
      isChromeAiAvailable h \<and> availability_reply h w0 = Inr Available
      \<and> snd (ngOnInit h (c, w0))
          = snd (warmupSession h (w0\<lparr>calls := calls w0 @ [Availability]\<rparr>)))
   \<and> canSendMessage ((ngOnInit_until_await h c)\<lparr>userInput := input\<rparr>)
       = (0 < length (js_trim input) \<and> \<not> isSending c \<and> isChromeAiAvailable h)"
proof -
  have a: "warmupSession h w = (Inr (), w1) \<and> currentSession w1 = Some r
      \<and> filter is_create (new_calls w1 (snd (getChromeAiResponse h userMessage w1))) = []"
    if ens: "ensureSession h w = (Inr r, w1)"
  proof -
    from ensureSession_success [OF ens] have cur: "currentSession w1 = Some r" by simp
    have "filter is_create (new_calls w1 (snd (getChromeAiResponse h userMessage w1))) = []"
    proof (cases "hasLanguageModel h")
      case False
      with cur show ?thesis
        by (simp add: getChromeAiResponse_no_model destroySession_calls)
    next
      case True
      from ensureSession_existing_calls [OF cur, of h]
      obtain cs where cs: "calls (snd (ensureSession h w1)) = calls w1 @ cs"
        "filter is_create cs = []" by blast
      from getChromeAiResponse_calls_after_ensure [OF True, of userMessage w1]
      obtain ds where ds: "calls (snd (getChromeAiResponse h userMessage w1))
          = calls (snd (ensureSession h w1)) @ ds" "filter is_create ds = []" by blast
      from cs ds have "calls (snd (getChromeAiResponse h userMessage w1)) = calls w1 @ (cs @ ds)"
        by simp
      then have "new_calls w1 (snd (getChromeAiResponse h userMessage w1)) = cs @ ds"
        by (rule new_calls_append)
      with cs ds show ?thesis by simp
    qed
    with ens cur show ?thesis by (simp add: warmupSession_eq)
  qed
  have b: "ngOnInit h (c, w0)
        = (c\<lparr>chromeAiAvailable := True\<rparr>,
           snd (warmupSession h (w0\<lparr>calls := calls w0 @ [Availability]\<rparr>)))"
    if "isChromeAiAvailable h" "availability_reply h w0 = Inr Available"
    using that by (rule ngOnInit_when_available)
  have d: "isChromeAiAvailable h \<and> availability_reply h w0 = Inr Available
      \<and> snd (ngOnInit h (c, w0))
          = snd (warmupSession h (w0\<lparr>calls := calls w0 @ [Availability]\<rparr>))"
    if "canSendMessage ((fst (ngOnInit h (c, w0)))\<lparr>userInput := input\<rparr>)"
  proof -
    from that have "chromeAiAvailable (fst (ngOnInit h (c, w0)))"
      by (simp add: canSendMessage_def)
    then have "isChromeAiAvailable h \<and> availability_reply h w0 = Inr Available"
      by (rule ngOnInit_available_only_then)
    with b show ?thesis by simp
  qed
  have e: "canSendMessage ((ngOnInit_until_await h c)\<lparr>userInput := input\<rparr>)
       = (0 < length (js_trim input) \<and> \<not> isSending c \<and> isChromeAiAvailable h)"
    by (simp add: canSendMessage_def ngOnInit_until_await_def)
  from a b d e show ?thesis by blast
qed

theorem warmupSession_prepares_first_message_witness:
  "ensureSession (fixed_host (Inr (12, 100)) (Inr (12, 100)) (Inr (''Hola'', 20))) initial_world
     = (Inr 0, world_with_session 12 100)
   \<and> warmupSession (fixed_host (Inr (12, 100)) (Inr (12, 100)) (Inr (''Hola'', 20))) initial_world
     = (Inr (), world_with_session 12 100)
   \<and> isChromeAiAvailable (fixed_host (Inr (12, 100)) (Inr (12, 100)) (Inr (''Hola'', 20)))
   \<and> availability_reply (fixed_host (Inr (12, 100)) (Inr (12, 100)) (Inr (''Hola'', 20)))
        initial_world = Inr Available
   \<and> ngOnInit (fixed_host (Inr (12, 100)) (Inr (12, 100)) (Inr (''Hola'', 20)))
        (new_component, initial_world)
     = (new_component\<lparr>chromeAiAvailable := True\<rparr>,
        \<lparr>currentSession = Some 0,
         heap = [\<lparr>inputUsage = 12, inputQuota = 100, destroyed = False\<rparr>],
         calls = [Availability, Create sessionOptions]\<rparr>)
   \<and> canSendMessage
        ((fst (ngOnInit (fixed_host (Inr (12, 100)) (Inr (12, 100)) (Inr (''Hola'', 20)))
           (new_component, initial_world)))\<lparr>userInput := ''Buenas''\<rparr>)"
proof -
  let ?h = "fixed_host (Inr (12, 100)) (Inr (12, 100)) (Inr (''Hola'', 20))"
  have ens: "ensureSession ?h initial_world = (Inr 0, world_with_session 12 100)"
    by (simp add: ensureSession_def await_then_def LanguageModel_create_def current_object_def
        return_ok_def initial_world_def world_with_session_def fixed_host_def new_session_def
        usagePercent_ge_90_iff)
  have av: "isChromeAiAvailable ?h" "availability_reply ?h initial_world = Inr Available"
    by (simp_all add: isChromeAiAvailable_def fixed_host_def)
  have warm: "snd (warmupSession ?h (initial_world\<lparr>calls := calls initial_world @ [Availability]\<rparr>))
      = \<lparr>currentSession = Some 0,
         heap = [\<lparr>inputUsage = 12, inputQuota = 100, destroyed = False\<rparr>],
         calls = [Availability, Create sessionOptions]\<rparr>"
    by (simp add: warmupSession_eq ensureSession_def await_then_def LanguageModel_create_def
        current_object_def return_ok_def initial_world_def fixed_host_def new_session_def
        usagePercent_ge_90_iff)
  from warmupSession_prepares_first_message
    [of ?h initial_world 0 "world_with_session 12 100" "''Buenas''" initial_world
        new_component "''Buenas''"]
    ens av warm
  show ?thesis
    by (simp add: canSendMessage_def js_trim_def js_whitespace_def new_component_def)
qed

text \<open>
  Before \<open>ngOnInit\<close> has ended the order can be the other one: at its first \<^verbatim>\<open>await\<close>
  a message can be sent although no warm-up has run, and the \<open>getChromeAiResponse\<close> for
  that message creates the session itself.
\<close>

theorem message_possible_before_warmup_counterexample:
  "\<not> (canSendMessage
        ((ngOnInit_until_await (fixed_host (Inr (12, 100)) (Inr (12, 100)) (Inr (''Hola'', 20)))
            new_component)\<lparr>userInput := ''Buenas''\<rparr>)
      \<longrightarrow> filter is_create (new_calls initial_world
            (snd (getChromeAiResponse (fixed_host (Inr (12, 100)) (Inr (12, 100)) (Inr (''Hola'', 20)))
               ''Buenas'' initial_world))) = [])"
  by (simp add: ngOnInit_until_await_def isChromeAiAvailable_def fixed_host_def
      canSendMessage_def js_trim_def js_whitespace_def new_component_def
      getChromeAiResponse_def try_catch_def await_then_def return_ok_def throw_def
      ensureSession_def LanguageModel_create_def current_object_def session_prompt_def
      initial_world_def new_session_def usagePercent_ge_90_iff new_calls_def)




text \<open>
  C8. \<open>getChromeAiResponse\<close> leaves the generation to the browser: it succeeds with the
  string \<open>response\<close> exactly when the global exists, \<open>ensureSession\<close> hands out a
  session and \<^verbatim>\<open>prompt(userMessage)\<close> on that session resolves with \<open>response\<close>; the
  string is returned as the browser gave it, and the state is the one the prompt left.
\<close>

theorem getChromeAiResponse_returns_prompt_response:
  "getChromeAiResponse h userMessage w = (Inr response, w') \<longleftrightarrow>
     hasLanguageModel h
     \<and> (\<exists>session w1 usage.
          ensureSession h w = (Inr session, w1)
          \<and> prompt_reply h w1 session userMessage = Inr (response, usage)
          \<and> session_prompt h session userMessage w1 = (Inr response, w'))"
proof (cases "hasLanguageModel h")
  case False
  then show ?thesis by (simp add: getChromeAiResponse_no_model)
next
  case True
  obtain res w1 where ens: "ensureSession h w = (res, w1)" by (cases "ensureSession h w")
  show ?thesis
  proof (cases res)
    case (Inl e)
    with True ens show ?thesis by (simp add: getChromeAiResponse_ensure_fails)
  next
    case (Inr r)
    with True ens show ?thesis
      by (auto simp add: getChromeAiResponse_prompt session_prompt_def
          split: prod.splits sum.splits)
  qed
qed

theorem getChromeAiResponse_returns_prompt_response_witness:
  "fst (getChromeAiResponse (fixed_host (Inr (12, 100)) (Inr (12, 100)) (Inr (''Hola'', 20)))
      ''Buenas'' (world_with_session 12 100)) = Inr ''Hola''
   \<and> prompt_reply (fixed_host (Inr (12, 100)) (Inr (12, 100)) (Inr (''Hola'', 20)))
        (world_with_session 12 100) 0 ''Buenas'' = Inr (''Hola'', 20)"
proof -
  let ?h = "fixed_host (Inr (12, 100)) (Inr (12, 100)) (Inr (''Hola'', 20))"
  let ?w = "world_with_session 12 100"
  have ens: "ensureSession ?h ?w = (Inr 0, ?w)"
    by (rule ensureSession_reuse)
      (simp_all add: world_with_session_def usagePercent_ge_90_iff)
  have rep: "prompt_reply ?h ?w 0 ''Buenas'' = Inr (''Hola'', 20)"
    by (simp add: fixed_host_def)
  have lm: "hasLanguageModel ?h" by (simp add: fixed_host_def)
  have pr: "session_prompt ?h 0 ''Buenas'' ?w
      = (Inr ''Hola'', snd (session_prompt ?h 0 ''Buenas'' ?w))"
    by (simp add: session_prompt_def rep)
  from lm ens rep pr
  have "getChromeAiResponse ?h ''Buenas'' ?w = (Inr ''Hola'', snd (session_prompt ?h 0 ''Buenas'' ?w))"
    using getChromeAiResponse_returns_prompt_response
      [of ?h "''Buenas''" ?w "''Hola''" "snd (session_prompt ?h 0 ''Buenas'' ?w)"]
    by blast
  with rep show ?thesis by simp
qed

text \<open>
  C9. \<open>destroySession\<close> is idempotent: with no session held it changes nothing, calling
  it twice leaves the same state as calling it once, and over the two calls no session
  has \<^verbatim>\<open>destroy()\<close> invoked on it more than once.
\<close>

theorem destroySession_idempotent:
  "(currentSession w = None \<longrightarrow> destroySession w = w)
   \<and> destroySession (destroySession w) = destroySession w
   \<and> count_list (new_calls w (destroySession (destroySession w))) (Destroy r) \<le> 1"
  by (simp add: destroySession_def session_destroy_def new_calls_def split: option.splits)

theorem destroySession_idempotent_witness:
  "currentSession initial_world = None \<and> destroySession initial_world = initial_world
   \<and> destroySession (destroySession (world_with_session 5 100))
       = destroySession (world_with_session 5 100)
   \<and> count_list (new_calls (world_with_session 5 100)
        (destroySession (destroySession (world_with_session 5 100)))) (Destroy 0) = 1"
  using destroySession_idempotent [of initial_world 0]
    destroySession_idempotent [of "world_with_session 5 100" 0]
  by (simp add: initial_world_def world_with_session_def destroySession_def
      session_destroy_def new_calls_def)

text \<open>
  C10. \<open>warmupSession\<close> never propagates an error: from every state and with every
  browser it returns normally. When the creation of the session fails during the warm-up
  (the service held none, and \<^verbatim>\<open>LanguageModel.create\<close> threw or rejected), the service is
  left holding no session.
\<close>

theorem warmupSession_swallows_errors:
  "fst (warmupSession h w) = Inr ()
   \<and> (currentSession w = None \<longrightarrow> LanguageModel_create h sessionOptions w = (Inl e, w1) \<longrightarrow>
        warmupSession h w = (Inr (), w1) \<and> currentSession w1 = None)"
  using ensureSession_failure_no_create_session [of w h e w1]
  by (simp add: warmupSession_eq)

theorem warmupSession_swallows_errors_witness:
  "currentSession initial_world = None
   \<and> LanguageModel_create (fixed_host (Inl quotaExceeded) (Inl quotaExceeded) (Inl quotaExceeded))
        sessionOptions initial_world
       = (Inl quotaExceeded, initial_world\<lparr>calls := [Create sessionOptions]\<rparr>)
   \<and> warmupSession (fixed_host (Inl quotaExceeded) (Inl quotaExceeded) (Inl quotaExceeded))
        initial_world
       = (Inr (), initial_world\<lparr>calls := [Create sessionOptions]\<rparr>)
   \<and> currentSession (initial_world\<lparr>calls := [Create sessionOptions]\<rparr>) = None"
  using warmupSession_swallows_errors
    [of "fixed_host (Inl quotaExceeded) (Inl quotaExceeded) (Inl quotaExceeded)" initial_world
        quotaExceeded "initial_world\<lparr>calls := [Create sessionOptions]\<rparr>"]
  by (simp add: initial_world_def fixed_host_def LanguageModel_create_def)

end
